theory Spec2Isabelle
  imports Main
begin

section \<open>The sign-up form component of ChessAnalyzer\<close>

text \<open>
  The development embeds \<^verbatim>\<open>src/frontend/src/components/Signup.jsx\<close>: the state cell
  \<^verbatim>\<open>form\<close> created by \<^verbatim>\<open>useState\<close>, the three \<^verbatim>\<open>onChange\<close> handlers, the
  \<^verbatim>\<open>handleSubmit\<close> handler and the \<^verbatim>\<open>value=\<close> bindings of the three inputs.

  JavaScript objects are values reached through references, so the model has an explicit
  store: an object literal allocates a new cell, \<^verbatim>\<open>setForm\<close> stores a reference in the
  state cell, and \<^verbatim>\<open>console.log\<close> receives the reference held by \<^verbatim>\<open>form\<close>, not a copy.
  What the handlers do to the outside world (the call of \<^verbatim>\<open>preventDefault\<close>, the call of
  \<^verbatim>\<open>console.log\<close>, a navigation of the browser) is recorded in a trace, in the order
  in which it happens.
\<close>

subsection \<open>Objects with string-valued properties\<close>

text \<open>
  An object is the list of its own properties in property order. Every value stored by the
  component is a string: the initial values are string literals and \<^verbatim>\<open>e.target.value\<close>
  of an input element is a string. The handlers store the text without looking at it, so
  nothing depends on which characters a string is made of.
\<close>

type_synonym obj = "(string \<times> string) list"

text \<open>Property read \<^verbatim>\<open>ob.k\<close>; \<open>None\<close> is JavaScript's \<^verbatim>\<open>undefined\<close> of an absent property.\<close>

fun get_prop :: "string \<Rightarrow> obj \<Rightarrow> string option" where
  "get_prop k [] = None"
| "get_prop k ((k', v') # ps) = (if k' = k then Some v' else get_prop k ps)"

text \<open>
  Defining property \<open>k\<close> on an object: an existing property keeps its place and takes the
  new value, a new property is added at the end.
\<close>

fun put_prop :: "string \<Rightarrow> string \<Rightarrow> obj \<Rightarrow> obj" where
  "put_prop k v [] = [(k, v)]"
| "put_prop k v ((k', v') # ps) =
     (if k' = k then (k, v) # ps else (k', v') # put_prop k v ps)"

text \<open>
  The object literal \<^verbatim>\<open>{ ...ob, k: v }\<close> of lines 25, 33 and 41: the own properties of
  \<open>ob\<close> in order, then property \<open>k\<close> defined as \<open>v\<close>.
\<close>

definition spread_with :: "obj \<Rightarrow> string \<Rightarrow> string \<Rightarrow> obj" where
  "spread_with ob k v = put_prop k v ob"

definition own_keys :: "obj \<Rightarrow> string list" where
  "own_keys ob = map fst ob"

text \<open>The three property names of the literal passed to \<^verbatim>\<open>useState\<close>, in its order (line 4).\<close>

definition form_keys :: "string list" where
  "form_keys = [''email'', ''password'', ''name'']"

subsection \<open>The store, the state cell and the trace\<close>

datatype log_arg = LStr string | LRef nat

datatype action = PreventDefault | ConsoleLog "log_arg list" | Navigate

text \<open>
  \<open>heap\<close> holds the objects allocated so far (a reference is an index into it),
  \<open>form\<close> is the reference held by the state cell, \<open>trace\<close> the actions so far, oldest first.
\<close>

record world =
  heap :: "obj list"
  form :: nat
  trace :: "action list"

definition alloc :: "obj \<Rightarrow> world \<Rightarrow> nat \<times> world" where
  "alloc ob w = (length (heap w), w\<lparr>heap := heap w @ [ob]\<rparr>)"

definition obj_at :: "world \<Rightarrow> nat \<Rightarrow> obj" where
  "obj_at w r = heap w ! r"

text \<open>
  The object the variable \<^verbatim>\<open>form\<close> refers to in the current render. A JavaScript
  reference always points to an object; \<open>wellformed\<close> below says so for the state cell,
  it holds at mount and every step keeps it.
\<close>

definition current :: "world \<Rightarrow> obj" where
  "current w = obj_at w (form w)"

text \<open>
  References come from \<open>alloc\<close> only, so a reference held by the component points into the
  store; and every object of the store has the three properties of the initial literal.
\<close>

definition wellformed :: "world \<Rightarrow> bool" where
  "wellformed w \<longleftrightarrow> form w < length (heap w) \<and> list_all (\<lambda>ob. own_keys ob = form_keys) (heap w)"

text \<open>
  Line 4: \<^verbatim>\<open>useState({ email: '', password: '', name: '' })\<close> when the component mounts.
  Later renders evaluate the literal again and \<^verbatim>\<open>useState\<close> ignores it; that object is
  referred to by nothing and is left out of the store.
\<close>

definition Signup_mount :: world where
  "Signup_mount =
     \<lparr>heap = [[(''email'', ''''), (''password'', ''''), (''name'', '''')]], form = 0, trace = []\<rparr>"

definition setForm :: "nat \<Rightarrow> world \<Rightarrow> world" where
  "setForm r w = w\<lparr>form := r\<rparr>"

subsection \<open>The input-change handlers (lines 25, 33, 41)\<close>

text \<open>Each takes \<^verbatim>\<open>e.target.value\<close>, builds the new object and passes it to \<^verbatim>\<open>setForm\<close>.\<close>

definition onChange_name :: "string \<Rightarrow> world \<Rightarrow> world" where
  "onChange_name v w =
     (case alloc (spread_with (current w) ''name'' v) w of (r, w') \<Rightarrow> setForm r w')"

definition onChange_email :: "string \<Rightarrow> world \<Rightarrow> world" where
  "onChange_email v w =
     (case alloc (spread_with (current w) ''email'' v) w of (r, w') \<Rightarrow> setForm r w')"

definition onChange_password :: "string \<Rightarrow> world \<Rightarrow> world" where
  "onChange_password v w =
     (case alloc (spread_with (current w) ''password'' v) w of (r, w') \<Rightarrow> setForm r w')"

text \<open>The three inputs of the form, the property each one is bound to, and its handler.\<close>

datatype field = Name | Email | Password

fun key_of :: "field \<Rightarrow> string" where
  "key_of Name = ''name''"
| "key_of Email = ''email''"
| "key_of Password = ''password''"

fun onChange :: "field \<Rightarrow> string \<Rightarrow> world \<Rightarrow> world" where
  "onChange Name v w = onChange_name v w"
| "onChange Email v w = onChange_email v w"
| "onChange Password v w = onChange_password v w"

text \<open>The \<^verbatim>\<open>value=\<close> props of the three inputs (lines 24, 32, 40).\<close>

record view =
  name_value :: "string option"
  email_value :: "string option"
  password_value :: "string option"

definition render :: "world \<Rightarrow> view" where
  "render w =
     \<lparr>name_value = get_prop ''name'' (current w),
      email_value = get_prop ''email'' (current w),
      password_value = get_prop ''password'' (current w)\<rparr>"

fun shown :: "view \<Rightarrow> field \<Rightarrow> string option" where
  "shown vw Name = name_value vw"
| "shown vw Email = email_value vw"
| "shown vw Password = password_value vw"

subsection \<open>The submit handler (lines 6 to 10)\<close>

text \<open>
  The submit event as far as the handler and the browser use it: whether its default action
  has been cancelled, and (standing for everything else an event carries) its time stamp.
  A submit event is cancelable, so \<^verbatim>\<open>preventDefault\<close> sets the flag.
\<close>

record submit_event =
  defaultPrevented :: bool
  timeStamp :: nat

definition preventDefault :: "submit_event \<Rightarrow> world \<Rightarrow> submit_event \<times> world" where
  "preventDefault e w = (e\<lparr>defaultPrevented := True\<rparr>, w\<lparr>trace := trace w @ [PreventDefault]\<rparr>)"

definition console_log :: "log_arg list \<Rightarrow> world \<Rightarrow> world" where
  "console_log args w = w\<lparr>trace := trace w @ [ConsoleLog args]\<rparr>"

definition handleSubmit :: "submit_event \<Rightarrow> world \<Rightarrow> submit_event \<times> world" where
  "handleSubmit e w =
     (case preventDefault e w of
        (e', w') \<Rightarrow> (e', console_log [LStr ''Signing up with:'', LRef (form w')] w'))"

text \<open>
  The browser after the handler has returned: the default action of a form submission is a
  navigation, taken unless the event's default has been prevented.
\<close>

definition navigate :: "world \<Rightarrow> world" where
  "navigate w = w\<lparr>trace := trace w @ [Navigate]\<rparr>"

definition onSubmit :: "submit_event \<Rightarrow> world \<Rightarrow> world" where
  "onSubmit e w =
     (case handleSubmit e w of
        (e', w') \<Rightarrow> if defaultPrevented e' then w' else navigate w')"

subsection \<open>Events and runs\<close>

text \<open>
  The events the form receives, one at a time: a change of one of the three inputs with the
  input's new text, or a submit. Each is handled to completion, with the component
  rendered again, before the next one.
\<close>

datatype event = Change field string | Submit submit_event

fun step :: "world \<Rightarrow> event \<Rightarrow> world" where
  "step w (Change f v) = onChange f v w"
| "step w (Submit e) = onSubmit e w"

fun run :: "world \<Rightarrow> event list \<Rightarrow> world" where
  "run w [] = w"
| "run w (ev # evs) = run (step w ev) evs"

text \<open>What a run has handed to the console: the arguments of each call, oldest first.\<close>

fun console_calls :: "action list \<Rightarrow> log_arg list list" where
  "console_calls [] = []"
| "console_calls (ConsoleLog args # as) = args # console_calls as"
| "console_calls (a # as) = console_calls as"

fun navigations :: "action list \<Rightarrow> nat" where
  "navigations [] = 0"
| "navigations (Navigate # as) = Suc (navigations as)"
| "navigations (a # as) = navigations as"

text \<open>The actions a step from \<open>w\<close> to \<open>w'\<close> has added to the trace.\<close>

definition emitted :: "world \<Rightarrow> world \<Rightarrow> action list" where
  "emitted w w' = drop (length (trace w)) (trace w')"

text \<open>
  What the console is given by a call: a string argument as it is, an object argument as
  the object its reference points to in the world \<open>w\<close>.
\<close>

datatype log_val = VStr string | VObj obj

fun resolve :: "world \<Rightarrow> log_arg \<Rightarrow> log_val" where
  "resolve w (LStr s) = VStr s"
| "resolve w (LRef r) = VObj (obj_at w r)"

text \<open>The calls that one submit from \<open>w\<close> makes to the console, with their arguments resolved.\<close>

definition handed_off :: "submit_event \<Rightarrow> world \<Rightarrow> log_val list list" where
  "handed_off e w =
     map (map (resolve (onSubmit e w))) (console_calls (emitted w (onSubmit e w)))"

section \<open>Properties of objects\<close>

lemma get_put_same: "get_prop k (put_prop k v ob) = Some v"
  by (induction ob) auto

lemma get_put_other: "k' \<noteq> k \<Longrightarrow> get_prop k' (put_prop k v ob) = get_prop k' ob"
  by (induction ob) auto

lemma put_put_same: "put_prop k v (put_prop k v' ob) = put_prop k v ob"
  by (induction ob) auto

lemma own_keys_put: "k \<in> set (own_keys ob) \<Longrightarrow> own_keys (put_prop k v ob) = own_keys ob"
  by (induction ob) (force simp: own_keys_def)+

lemma put_put_commute:
  "k \<noteq> k' \<Longrightarrow> k \<in> set (own_keys ob) \<Longrightarrow> k' \<in> set (own_keys ob) \<Longrightarrow>
   put_prop k u (put_prop k' v ob) = put_prop k' v (put_prop k u ob)"
  by (induction ob) (force simp: own_keys_def)+

lemma key_of_in_form_keys: "key_of f \<in> set form_keys"
  by (cases f) (simp_all add: form_keys_def)

lemma key_of_inject: "key_of f = key_of g \<longleftrightarrow> f = g"
  by (cases f; cases g) simp_all

lemma get_prop_present: "k \<in> set (own_keys ob) \<Longrightarrow> \<exists>v. get_prop k ob = Some v"
  by (induction ob) (force simp: own_keys_def)+


section \<open>Properties of the handlers\<close>

lemma onChange_unfold:
  "onChange f v w =
     w\<lparr>heap := heap w @ [put_prop (key_of f) v (current w)], form := length (heap w)\<rparr>"
  by (cases f)
    (simp_all add: onChange_name_def onChange_email_def onChange_password_def
      alloc_def setForm_def spread_with_def)

lemma current_onChange: "current (onChange f v w) = put_prop (key_of f) v (current w)"
  by (simp add: onChange_unfold current_def obj_at_def)

lemma trace_onChange: "trace (onChange f v w) = trace w"
  by (simp add: onChange_unfold)

lemma wellformed_current_keys: "wellformed w \<Longrightarrow> own_keys (current w) = form_keys"
  by (simp add: wellformed_def current_def obj_at_def list_all_length)

lemma wellformed_onChange: "wellformed w \<Longrightarrow> wellformed (onChange f v w)"
  using wellformed_current_keys [of w] key_of_in_form_keys [of f]
  by (simp add: onChange_unfold wellformed_def own_keys_put)

lemma onSubmit_unfold:
  "onSubmit e w =
     w\<lparr>trace := trace w @ [PreventDefault, ConsoleLog [LStr ''Signing up with:'', LRef (form w)]]\<rparr>"
  by (simp add: onSubmit_def handleSubmit_def preventDefault_def console_log_def)

lemma wellformed_onSubmit: "wellformed w \<Longrightarrow> wellformed (onSubmit e w)"
  by (simp add: onSubmit_unfold wellformed_def)

lemma wellformed_step: "wellformed w \<Longrightarrow> wellformed (step w ev)"
  by (cases ev) (simp_all add: wellformed_onChange wellformed_onSubmit)

lemma wellformed_run: "wellformed w \<Longrightarrow> wellformed (run w evs)"
  by (induction evs arbitrary: w) (simp_all add: wellformed_step)

lemma wellformed_mount: "wellformed Signup_mount"
  by (simp add: wellformed_def Signup_mount_def own_keys_def form_keys_def)


lemma heap_onSubmit: "heap (onSubmit e w) = heap w"
  by (simp add: onSubmit_unfold)

lemma form_onSubmit: "form (onSubmit e w) = form w"
  by (simp add: onSubmit_unfold)

lemma current_onSubmit: "current (onSubmit e w) = current w"
  by (simp add: onSubmit_unfold current_def obj_at_def)

lemma emitted_onSubmit:
  "emitted w (onSubmit e w)
     = [PreventDefault, ConsoleLog [LStr ''Signing up with:'', LRef (form w)]]"
  by (simp add: onSubmit_unfold emitted_def)

lemma handed_off_eq: "handed_off e w = [[VStr ''Signing up with:'', VObj (current w)]]"
  by (simp add: handed_off_def emitted_onSubmit current_def obj_at_def heap_onSubmit)

text \<open>The store only grows: a step leaves every allocated object as it is.\<close>

lemma heap_step_grows: "\<exists>new. heap (step w ev) = heap w @ new"
  by (cases ev) (simp_all add: onChange_unfold heap_onSubmit)

lemma heap_run_grows: "\<exists>new. heap (run w evs) = heap w @ new"
proof (induction evs arbitrary: w)
  case Nil
  show ?case by simp
next
  case (Cons ev evs)
  obtain n1 where n1: "heap (step w ev) = heap w @ n1"
    using heap_step_grows by blast
  obtain n2 where n2: "heap (run (step w ev) evs) = heap (step w ev) @ n2"
    using Cons.IH by blast
  from n1 n2 show ?case by simp
qed

lemma obj_at_run: "r < length (heap w) \<Longrightarrow> obj_at (run w evs) r = obj_at w r"
proof -
  assume r: "r < length (heap w)"
  obtain new where "heap (run w evs) = heap w @ new"
    using heap_run_grows by blast
  with r show ?thesis by (simp add: obj_at_def nth_append)
qed

text \<open>The trace only grows, and no step of the component adds a navigation.\<close>

lemma navigations_append: "navigations (as @ bs) = navigations as + navigations bs"
  by (induction as rule: navigations.induct) simp_all

lemma console_calls_append: "console_calls (as @ bs) = console_calls as @ console_calls bs"
  by (induction as rule: console_calls.induct) simp_all

lemma navigations_step: "navigations (trace (step w ev)) = navigations (trace w)"
  by (cases ev) (simp_all add: trace_onChange onSubmit_unfold navigations_append)

lemma navigations_run: "navigations (trace (run w evs)) = navigations (trace w)"
  by (induction evs arbitrary: w) (simp_all add: navigations_step)

lemma trace_step_grows: "\<exists>new. trace (step w ev) = trace w @ new"
  by (cases ev) (simp_all add: trace_onChange onSubmit_unfold)

lemma trace_run_grows: "\<exists>new. trace (run w evs) = trace w @ new"
proof (induction evs arbitrary: w)
  case Nil
  show ?case by simp
next
  case (Cons ev evs)
  obtain n1 where n1: "trace (step w ev) = trace w @ n1"
    using trace_step_grows by blast
  obtain n2 where n2: "trace (run (step w ev) evs) = trace (step w ev) @ n2"
    using Cons.IH by blast
  from n1 n2 show ?case by simp
qed

lemmas handler_defs =
  onChange_name_def onChange_email_def onChange_password_def alloc_def setForm_def
  spread_with_def current_def obj_at_def Signup_mount_def onSubmit_def handleSubmit_def
  preventDefault_def console_log_def navigate_def emitted_def

section \<open>The claims\<close>

text \<open>
  C1. In every state, after any sequence of events, the change handler of field \<open>f\<close>
  called with the text \<open>v\<close> leaves a form whose property \<open>f\<close> is exactly \<open>v\<close>, whatever
  characters \<open>v\<close> has, and whose other two properties have the values they had before.
\<close>

theorem set_field_exact:
  "get_prop (key_of f) (current (step (run w evs) (Change f v))) = Some v
    \<and> (\<forall>g. g \<noteq> f \<longrightarrow>
          get_prop (key_of g) (current (step (run w evs) (Change f v)))
            = get_prop (key_of g) (current (run w evs)))"
proof -
  let ?s = "run w evs"
  have same: "get_prop (key_of f) (current (step ?s (Change f v))) = Some v"
    by (simp add: current_onChange get_put_same)
  have other: "get_prop (key_of g) (current (step ?s (Change f v)))
      = get_prop (key_of g) (current ?s)" if "g \<noteq> f" for g
    using that by (simp add: current_onChange get_put_other key_of_inject)
  from same other show ?thesis by blast
qed

theorem set_field_exact_witness:
  "get_prop (key_of Name)
      (current (step (run Signup_mount [Change Email ''a@b'']) (Change Name '' Ada ''))) = Some '' Ada ''
    \<and> Email \<noteq> Name
    \<and> get_prop (key_of Email)
          (current (step (run Signup_mount [Change Email ''a@b'']) (Change Name '' Ada '')))
        = Some ''a@b''
    \<and> Password \<noteq> Name
    \<and> get_prop (key_of Password)
          (current (step (run Signup_mount [Change Email ''a@b'']) (Change Name '' Ada '')))
        = Some ''''"
proof -
  let ?s = "run Signup_mount [Change Email ''a@b'']"
  note inst = set_field_exact [of Name Signup_mount "[Change Email ''a@b'']" "'' Ada ''"]
  note g1 = inst [THEN conjunct2, THEN spec, of Email]
  note g2 = inst [THEN conjunct2, THEN spec, of Password]
  have e: "get_prop (key_of Email) (current ?s) = Some ''a@b''"
    by (simp add: handler_defs)
  have p: "get_prop (key_of Password) (current ?s) = Some ''''"
    by (simp add: handler_defs)
  from inst g1 g2 e p show ?thesis by simp
qed

text \<open>
  C2. Whatever the state of the form (the empty form at mount included) and whatever the
  event, the first thing \<^verbatim>\<open>handleSubmit\<close> does is to call \<^verbatim>\<open>preventDefault\<close>; the event
  it returns has its default prevented, so the browser does not navigate after the
  handler, and no run of the component contains a navigation.
\<close>

theorem handleSubmit_prevents_default_first:
  "take 1 (emitted w (snd (handleSubmit e w))) = [PreventDefault]
    \<and> defaultPrevented (fst (handleSubmit e w))
    \<and> navigations (emitted w (onSubmit e w)) = 0
    \<and> take 1 (emitted Signup_mount (onSubmit e Signup_mount)) = [PreventDefault]
    \<and> navigations (trace (run Signup_mount evs)) = 0"
proof -
  have first: "take 1 (emitted w (snd (handleSubmit e w))) = [PreventDefault]" for w
    by (simp add: handleSubmit_def preventDefault_def console_log_def emitted_def)
  have flag: "defaultPrevented (fst (handleSubmit e w))"
    by (simp add: handleSubmit_def preventDefault_def)
  have none: "navigations (emitted w (onSubmit e w)) = 0"
    by (simp add: emitted_onSubmit)
  have mount: "take 1 (emitted Signup_mount (onSubmit e Signup_mount)) = [PreventDefault]"
    by (simp add: emitted_onSubmit)
  have "navigations (trace (run Signup_mount evs)) = navigations (trace Signup_mount)"
    by (rule navigations_run)
  then have never: "navigations (trace (run Signup_mount evs)) = 0"
    by (simp add: Signup_mount_def)
  from first flag none mount never show ?thesis by blast
qed

text \<open>
  C3. One submit makes exactly one call of the console, whose arguments are the label and
  the object \<^verbatim>\<open>form\<close> refers to at that moment, and no navigation. In the scenario of the
  specification (name set to Ada, then email set to ada@x.com, then submit) the object
  handed off has name Ada, email ada@x.com and an empty password, in the property order of
  the initial literal.
\<close>

theorem submit_hands_off_current_form_once:
  "handed_off e w = [[VStr ''Signing up with:'', VObj (current w)]]
    \<and> console_calls (emitted w (step w (Submit e))) = [[LStr ''Signing up with:'', LRef (form w)]]
    \<and> navigations (emitted w (step w (Submit e))) = 0
    \<and> handed_off e (run Signup_mount [Change Name ''Ada'', Change Email ''ada@x.com''])
        = [[VStr ''Signing up with:'',
            VObj [(''email'', ''ada@x.com''), (''password'', ''''), (''name'', ''Ada'')]]]
    \<and> navigations
        (trace (run Signup_mount [Change Name ''Ada'', Change Email ''ada@x.com'', Submit e])) = 0"
proof -
  have a: "handed_off e w = [[VStr ''Signing up with:'', VObj (current w)]]" for w
    by (rule handed_off_eq)
  have b: "console_calls (emitted w (step w (Submit e)))
      = [[LStr ''Signing up with:'', LRef (form w)]]"
    by (simp add: emitted_onSubmit)
  have c: "navigations (emitted w (step w (Submit e))) = 0"
    by (simp add: emitted_onSubmit)
  have "current (run Signup_mount [Change Name ''Ada'', Change Email ''ada@x.com''])
      = [(''email'', ''ada@x.com''), (''password'', ''''), (''name'', ''Ada'')]"
    by (simp add: handler_defs)
  then have d: "handed_off e (run Signup_mount [Change Name ''Ada'', Change Email ''ada@x.com''])
      = [[VStr ''Signing up with:'',
          VObj [(''email'', ''ada@x.com''), (''password'', ''''), (''name'', ''Ada'')]]]"
    by (simp only: a)
  have "navigations
      (trace (run Signup_mount [Change Name ''Ada'', Change Email ''ada@x.com'', Submit e]))
      = navigations (trace Signup_mount)"
    by (rule navigations_run)
  then have f: "navigations
      (trace (run Signup_mount [Change Name ''Ada'', Change Email ''ada@x.com'', Submit e])) = 0"
    by (simp add: Signup_mount_def)
  from a b c d f show ?thesis by blast
qed

text \<open>
  C4. In every state reached from the mounted component by any sequence of changes and
  submits, each of the three properties name, email and password of the form is a defined
  string, and the value bound to the field's input is that string; at mount all three are
  the empty string.
\<close>

theorem form_always_populated:
  "(\<forall>f. \<exists>s. get_prop (key_of f) (current (run Signup_mount evs)) = Some s
          \<and> shown (render (run Signup_mount evs)) f = Some s)
    \<and> (\<forall>f. get_prop (key_of f) (current Signup_mount) = Some '''')"
proof -
  let ?w = "run Signup_mount evs"
  have "wellformed ?w" using wellformed_mount by (rule wellformed_run)
  then have ks: "own_keys (current ?w) = form_keys" by (rule wellformed_current_keys)
  have bound: "shown (render ?w) f = get_prop (key_of f) (current ?w)" for f
    by (cases f) (simp_all add: render_def)
  have "\<exists>s. get_prop (key_of f) (current ?w) = Some s" for f
    using ks key_of_in_form_keys [of f] get_prop_present [of "key_of f" "current ?w"] by simp
  with bound have reach: "\<exists>s. get_prop (key_of f) (current ?w) = Some s
      \<and> shown (render ?w) f = Some s" for f
    by metis
  have init: "get_prop (key_of f) (current Signup_mount) = Some ''''" for f
    by (cases f) (simp_all add: current_def obj_at_def Signup_mount_def)
  from reach init show ?thesis by blast
qed

text \<open>
  C5. Calling the change handler of a field twice in a row with the same text leaves the
  same form object (the same three strings) as calling it once; each call stores a new
  reference, the object behind it is equal. For the password set to hunter2 twice from the
  mounted form, the form after one call and after two calls has an empty email, the
  password hunter2 and an empty name.
\<close>

theorem set_field_idempotent:
  "current (run w [Change f v, Change f v]) = current (run w [Change f v])
    \<and> current (run Signup_mount [Change Password ''hunter2''])
        = [(''email'', ''''), (''password'', ''hunter2''), (''name'', '''')]
    \<and> current (run Signup_mount [Change Password ''hunter2'', Change Password ''hunter2''])
        = [(''email'', ''''), (''password'', ''hunter2''), (''name'', '''')]"
proof -
  have twice: "current (run w [Change f v, Change f v]) = current (run w [Change f v])"
    by (simp add: current_onChange put_put_same)
  have once: "current (run Signup_mount [Change Password ''hunter2''])
      = [(''email'', ''''), (''password'', ''hunter2''), (''name'', '''')]"
    by (simp add: handler_defs)
  have both: "current (run Signup_mount [Change Password ''hunter2'', Change Password ''hunter2''])
      = [(''email'', ''''), (''password'', ''hunter2''), (''name'', '''')]"
    by (simp add: handler_defs)
  from twice once both show ?thesis by blast
qed

text \<open>
  C6. A submit leaves the form as it is: the state cell holds the same reference, the
  store is unchanged, so the form object and the values bound to the three inputs are
  those from before the submit, and the component goes on handling events from there.
\<close>

theorem submit_leaves_form_unchanged:
  "current (step w (Submit e)) = current w
    \<and> form (step w (Submit e)) = form w
    \<and> heap (step w (Submit e)) = heap w
    \<and> render (step w (Submit e)) = render w"
  by (simp add: current_onSubmit form_onSubmit heap_onSubmit render_def)

text \<open>
  C7. From a well-formed state (every state reached from the mounted form is one), a
  submit hands the console the reference held by the state cell; whatever events follow (changes of any field, further submits), the object at that
  reference stays the form of the moment of the submit, so the arguments handed off read
  the same at any later time as when they were handed off.
\<close>

theorem handed_off_snapshot_immune:
  assumes "wellformed w"
  shows "console_calls (emitted w (step w (Submit e)))
        = [[LStr ''Signing up with:'', LRef (form w)]]
    \<and> obj_at (run (step w (Submit e)) evs) (form w) = current w
    \<and> map (map (resolve (run (step w (Submit e)) evs)))
          (console_calls (emitted w (step w (Submit e))))
        = handed_off e w"
proof -
  let ?w1 = "step w (Submit e)"
  have calls: "console_calls (emitted w ?w1) = [[LStr ''Signing up with:'', LRef (form w)]]"
    by (simp add: emitted_onSubmit)
  have "form w < length (heap ?w1)"
    using assms by (simp add: wellformed_def heap_onSubmit)
  then have "obj_at (run ?w1 evs) (form w) = obj_at ?w1 (form w)"
    by (rule obj_at_run)
  then have kept: "obj_at (run ?w1 evs) (form w) = current w"
    by (simp add: current_def obj_at_def heap_onSubmit)
  have later: "map (map (resolve (run ?w1 evs))) (console_calls (emitted w ?w1))
      = handed_off e w"
    by (simp only: calls handed_off_eq kept list.map resolve.simps)
  from calls kept later show ?thesis by blast
qed

theorem handed_off_snapshot_immune_witness:
  "wellformed Signup_mount
    \<and> obj_at
        (run (step Signup_mount (Submit \<lparr>defaultPrevented = False, timeStamp = 7\<rparr>))
          [Change Name ''Ada'', Change Password ''hunter2''])
        (form Signup_mount)
      = [(''email'', ''''), (''password'', ''''), (''name'', '''')]
    \<and> current
        (run (step Signup_mount (Submit \<lparr>defaultPrevented = False, timeStamp = 7\<rparr>))
          [Change Name ''Ada'', Change Password ''hunter2''])
      = [(''email'', ''''), (''password'', ''hunter2''), (''name'', ''Ada'')]"
proof -
  note inst = handed_off_snapshot_immune [OF wellformed_mount,
      of "\<lparr>defaultPrevented = False, timeStamp = 7\<rparr>"
         "[Change Name ''Ada'', Change Password ''hunter2'']"]
  have start: "current Signup_mount = [(''email'', ''''), (''password'', ''''), (''name'', '''')]"
    by (simp add: current_def obj_at_def Signup_mount_def)
  have after: "current
        (run (step Signup_mount (Submit \<lparr>defaultPrevented = False, timeStamp = 7\<rparr>))
          [Change Name ''Ada'', Change Password ''hunter2''])
      = [(''email'', ''''), (''password'', ''hunter2''), (''name'', ''Ada'')]"
    by (simp add: handler_defs)
  from inst start after wellformed_mount show ?thesis by simp
qed



text \<open>
  C9. From a well-formed state (the mounted form is one and every step keeps it, see
  \<open>wellformed_mount\<close> and \<open>wellformed_run\<close>), the change handlers of two different fields
  commute: calling them in either order leaves the same form object.
\<close>

theorem distinct_fields_commute:
  assumes "wellformed w" and "f \<noteq> g"
  shows "current (run w [Change f u, Change g v]) = current (run w [Change g v, Change f u])"
proof -
  have ks: "own_keys (current w) = form_keys"
    using assms(1) by (rule wellformed_current_keys)
  have kf: "key_of f \<in> set (own_keys (current w))"
    using ks key_of_in_form_keys [of f] by simp
  have kg: "key_of g \<in> set (own_keys (current w))"
    using ks key_of_in_form_keys [of g] by simp
  have ne: "key_of g \<noteq> key_of f"
    using assms(2) by (simp add: key_of_inject)
  have "put_prop (key_of g) v (put_prop (key_of f) u (current w))
      = put_prop (key_of f) u (put_prop (key_of g) v (current w))"
    using ne kg kf by (rule put_put_commute)
  then show ?thesis by (simp add: current_onChange)
qed

theorem distinct_fields_commute_witness:
  "wellformed Signup_mount \<and> Name \<noteq> Email
    \<and> current (run Signup_mount [Change Name ''Ada'', Change Email ''ada@x.com''])
        = current (run Signup_mount [Change Email ''ada@x.com'', Change Name ''Ada''])
    \<and> current (run Signup_mount [Change Email ''ada@x.com'', Change Name ''Ada''])
        = [(''email'', ''ada@x.com''), (''password'', ''''), (''name'', ''Ada'')]"
proof -
  have ne: "Name \<noteq> Email" by simp
  note inst = distinct_fields_commute [OF wellformed_mount ne, of "''Ada''" "''ada@x.com''"]
  have val: "current (run Signup_mount [Change Email ''ada@x.com'', Change Name ''Ada''])
      = [(''email'', ''ada@x.com''), (''password'', ''''), (''name'', ''Ada'')]"
    by (simp add: handler_defs)
  from wellformed_mount ne inst val show ?thesis by blast
qed

text \<open>
  C10. What a submit hands to the console is determined by the form object alone: two
  submits from states with equal form objects hand off equal arguments, whatever the two
  events carry and whatever else the two states hold.
\<close>

theorem payload_depends_on_form_only:
  assumes "current w1 = current w2"
  shows "handed_off e1 w1 = handed_off e2 w2"
  using assms by (simp add: handed_off_eq)

theorem payload_depends_on_form_only_witness:
  "current Signup_mount = current (run Signup_mount [Change Name '''', Submit \<lparr>defaultPrevented = False, timeStamp = 1\<rparr>])
    \<and> handed_off \<lparr>defaultPrevented = False, timeStamp = 2\<rparr> Signup_mount
        = handed_off \<lparr>defaultPrevented = True, timeStamp = 3\<rparr>
            (run Signup_mount [Change Name '''', Submit \<lparr>defaultPrevented = False, timeStamp = 1\<rparr>])
    \<and> handed_off \<lparr>defaultPrevented = False, timeStamp = 2\<rparr> Signup_mount
        = [[VStr ''Signing up with:'', VObj [(''email'', ''''), (''password'', ''''), (''name'', '''')]]]"
proof -
  let ?w2 = "run Signup_mount [Change Name '''', Submit \<lparr>defaultPrevented = False, timeStamp = 1\<rparr>]"
  have same: "current Signup_mount = current ?w2"
    by (simp add: handler_defs)
  note inst = payload_depends_on_form_only [OF same,
      of "\<lparr>defaultPrevented = False, timeStamp = 2\<rparr>" "\<lparr>defaultPrevented = True, timeStamp = 3\<rparr>"]
  have val: "handed_off \<lparr>defaultPrevented = False, timeStamp = 2\<rparr> Signup_mount
      = [[VStr ''Signing up with:'', VObj [(''email'', ''''), (''password'', ''''), (''name'', '''')]]]"
    by (simp add: handed_off_def handler_defs)
  from same inst val show ?thesis by blast
qed

end
